theory Spec2Isabelle
  imports Main "HOL-Library.Sublist"
begin

section \<open>Python strings\<close>

text \<open>
  A Python \<open>str\<close> is modelled as a \<open>string\<close>, one \<open>char\<close> per character;
  \<open>len\<close> is \<open>length\<close> and \<open>+\<close> is \<open>@\<close>.
\<close>

definition digit_char :: "nat \<Rightarrow> char" where
  "digit_char n = char_of (48 + n)"

text \<open>\<open>str(n)\<close> for a non-negative integer: decimal digits, no leading zero.\<close>

function str_nat :: "nat \<Rightarrow> string" where
  "str_nat n = (if n < 10 then [digit_char n] else str_nat (n div 10) @ [digit_char (n mod 10)])"
  by pat_completeness auto
termination
  by (relation "measure id") auto

declare str_nat.simps [simp del]

text \<open>\<open>str(i)\<close> for any Python integer.\<close>

definition str_int :: "int \<Rightarrow> string" where
  "str_int i = (if i < 0 then CHR ''-'' # str_nat (nat (- i)) else str_nat (nat i))"

text \<open>
  \<open>s.replace(old, new)\<close>: every non-overlapping occurrence of \<open>old\<close>, found scanning
  from the left, is replaced. (The source only calls it with a non-empty \<open>old\<close>.)
\<close>

function str_replace :: "string \<Rightarrow> string \<Rightarrow> string \<Rightarrow> string" where
  "str_replace old new [] = []"
| "str_replace old new (c # cs) =
     (if old \<noteq> [] \<and> prefix old (c # cs)
      then new @ str_replace old new (drop (length old) (c # cs))
      else c # str_replace old new cs)"
  by pat_completeness auto
termination
  by (relation "measure (\<lambda>(old, new, s). length s)") auto

text \<open>
  The characters \<open>str.isspace\<close> accepts among the first 256 code points:
  \<open>\t \n \v \f \r\<close>, the separators \<open>0x1c\<close> to \<open>0x1f\<close>, the space, \<open>0x85\<close> and \<open>0xa0\<close>.
\<close>

definition is_space :: "char \<Rightarrow> bool" where
  "is_space c = (let n = (of_char c :: nat) in
     (9 \<le> n \<and> n \<le> 13) \<or> (28 \<le> n \<and> n \<le> 32) \<or> n = 133 \<or> n = 160)"

text \<open>\<open>s.strip()\<close>: leading and trailing whitespace removed.\<close>

definition strip :: "string \<Rightarrow> string" where
  "strip s = rev (dropWhile is_space (rev (dropWhile is_space s)))"

text \<open>\<open>os.path.basename\<close> on a POSIX path: what follows the last slash.\<close>

definition basename :: "string \<Rightarrow> string" where
  "basename p = rev (takeWhile (\<lambda>c. c \<noteq> CHR ''/'') (rev p))"

text \<open>\<open>s * n\<close> for a one-character string.\<close>

definition rule_line :: "char \<Rightarrow> nat \<Rightarrow> string" where
  "rule_line c n = replicate n c"

text \<open>The source's \<open>xs[i:j]\<close> for \<open>0 \<le> i \<le> j\<close>: a slice never raises, it is cut at the end.\<close>

definition slice :: "'a list \<Rightarrow> nat \<Rightarrow> nat \<Rightarrow> 'a list" where
  "slice xs i j = take (j - i) (drop i xs)"

section \<open>Exceptions, console output and the remote store\<close>

text \<open>
  The scripts raise \<open>ValueError\<close> themselves; every other exception comes out of a
  collaborator (the PDF reader, the embedding model, the store client) and carries the
  text that \<open>str(e)\<close> prints. A violated chunking precondition is the spec's
  ChunkingError.
\<close>

datatype error = ValueError string | ExternalError string | ChunkingError

fun str_error :: "error \<Rightarrow> string" where
  "str_error (ValueError m) = m"
| "str_error (ExternalError m) = m"
| "str_error ChunkingError = ''chunk_overlap must be smaller than chunk_size''"

text \<open>
  What a run does to the outside world, in order: lines printed, calls made on the store
  client (with the arguments the run passes), pauses (in milliseconds), and the
  traceback of an exception written by \<open>traceback.print_exc()\<close>.
\<close>

datatype 'd call =
    Data_API_Client "string option"
  | Get_Database "string option"
  | Get_Database_By_Api_Endpoint "string option"
  | Get_Collection string
  | Create_Collection string
  | Insert_Many "'d list"
  | Find string int
  | List_Collection_Names

datatype 'd event = Print string | Call "'d call" | Sleep nat | Traceback error

text \<open>
  A program takes the state of the remote side and returns a value or the exception
  raised, the new remote state, and the events of the run.
\<close>

type_synonym ('a, 's, 'd) prog = "'s \<Rightarrow> (error + 'a) \<times> 's \<times> 'd event list"

definition ret :: "'a \<Rightarrow> ('a, 's, 'd) prog" where
  "ret x s = (Inr x, s, [])"

definition throw :: "error \<Rightarrow> ('a, 's, 'd) prog" where
  "throw e s = (Inl e, s, [])"

definition andthen :: "('a, 's, 'd) prog \<Rightarrow> ('a \<Rightarrow> ('b, 's, 'd) prog) \<Rightarrow> ('b, 's, 'd) prog" where
  "andthen m f s =
     (case m s of
        (Inl e, s', out) \<Rightarrow> (Inl e, s', out)
      | (Inr x, s', out) \<Rightarrow> (case f x s' of (r, s'', out') \<Rightarrow> (r, s'', out @ out')))"

text \<open>\<open>try: m  except Exception as e: h e\<close>.\<close>

definition try_except :: "('a, 's, 'd) prog \<Rightarrow> (error \<Rightarrow> ('a, 's, 'd) prog) \<Rightarrow> ('a, 's, 'd) prog" where
  "try_except m h s =
     (case m s of
        (Inl e, s', out) \<Rightarrow> (case h e s' of (r, s'', out') \<Rightarrow> (r, s'', out @ out'))
      | (Inr x, s', out) \<Rightarrow> (Inr x, s', out))"

definition print_line :: "string \<Rightarrow> (unit, 's, 'd) prog" where
  "print_line m s = (Inr (), s, [Print m])"

definition sleep :: "nat \<Rightarrow> (unit, 's, 'd) prog" where
  "sleep ms s = (Inr (), s, [Sleep ms])"

text \<open>A call on the store client: the call is recorded, then the remote side answers.\<close>

definition remote_call :: "'d call \<Rightarrow> ('s \<Rightarrow> (error + 'a) \<times> 's) \<Rightarrow> ('a, 's, 'd) prog" where
  "remote_call c answer s = (case answer s of (r, s') \<Rightarrow> (r, s', [Call c]))"

text \<open>
  The store client, as the scripts use it. Each operation may raise and may change the
  remote state \<open>'s\<close>; nothing else is assumed of it. \<open>'d\<close> is the type of the documents
  inserted, \<open>'r\<close> the type of the documents a search returns.
\<close>

record ('s, 'd, 'r) store =
  data_api_client :: "string option \<Rightarrow> 's \<Rightarrow> (error + unit) \<times> 's"
  get_database :: "string option \<Rightarrow> 's \<Rightarrow> (error + unit) \<times> 's"
  get_database_by_api_endpoint :: "string option \<Rightarrow> 's \<Rightarrow> (error + unit) \<times> 's"
  get_collection :: "string \<Rightarrow> 's \<Rightarrow> (error + unit) \<times> 's"
  create_collection :: "string \<Rightarrow> 's \<Rightarrow> (error + unit) \<times> 's"
  insert_many :: "'d list \<Rightarrow> 's \<Rightarrow> (error + unit) \<times> 's"
  find_sorted :: "string \<Rightarrow> int \<Rightarrow> 's \<Rightarrow> (error + 'r list) \<times> 's"
  list_collection_names :: "'s \<Rightarrow> (error + string list) \<times> 's"

text \<open>
  The credentials read from the environment when a script is loaded: \<open>os.getenv\<close> gives
  \<open>None\<close> for an unset variable.
\<close>

record env =
  ASTRA_DB_API_ENDPOINT :: "string option"
  ASTRA_DB_APPLICATION_TOKEN :: "string option"

text \<open>Python's \<open>not x\<close> for an optional string: true for \<open>None\<close> and for the empty string.\<close>

definition falsy :: "string option \<Rightarrow> bool" where
  "falsy x = (case x of None \<Rightarrow> True | Some v \<Rightarrow> v = [])"

definition calls_of :: "'d event list \<Rightarrow> 'd call list" where
  "calls_of evs = concat (map (\<lambda>e. case e of Call c \<Rightarrow> [c] | _ \<Rightarrow> []) evs)"

definition inserted_batches :: "'d event list \<Rightarrow> 'd list list" where
  "inserted_batches evs = concat (map (\<lambda>e. case e of Call (Insert_Many b) \<Rightarrow> [b] | _ \<Rightarrow> []) evs)"

definition next_do :: "(unit, 's, 'd) prog \<Rightarrow> ('b, 's, 'd) prog \<Rightarrow> ('b, 's, 'd) prog" where
  "next_do m n = andthen m (\<lambda>_. n)"

text \<open>The result of a local computation that may raise.\<close>

definition from_result :: "error + 'a \<Rightarrow> ('a, 's, 'd) prog" where
  "from_result r s = (r, s, [])"

definition print_exc :: "error \<Rightarrow> (unit, 's, 'd) prog" where
  "print_exc e s = (Inr (), s, [Traceback e])"

definition nl :: string where
  "nl = [CHR 0x0A]"

definition quoted :: "string \<Rightarrow> string" where
  "quoted s = CHR 0x27 # s @ [CHR 0x27]"

section \<open>Ingestion with delegated vectorization (ingest\_pdf\_simple.py)\<close>

record simple_doc =
  doc_id :: string
  source :: string
  chunk_id :: nat
  total_chunks :: nat
  vectorize :: string

text \<open>The \<open>_id\<close> of a document: \<open>f"{pdf_filename.replace('.pdf', '')}_{i}"\<close>.\<close>

definition record_id :: "string \<Rightarrow> nat \<Rightarrow> string" where
  "record_id pdf_filename i = str_replace ''.pdf'' '''' pdf_filename @ ''_'' @ str_nat i"

definition prepare_documents :: "string list \<Rightarrow> string \<Rightarrow> simple_doc list" where
  "prepare_documents chunks pdf_filename =
     map (\<lambda>(i, chunk).
            \<lparr>doc_id = record_id pdf_filename i,
             source = pdf_filename,
             chunk_id = i,
             total_chunks = length chunks,
             vectorize = chunk\<rparr>)
         (enumerate 0 chunks)"

definition batch_size :: nat where
  "batch_size = 20"

text \<open>\<open>(len(documents) - 1) // batch_size + 1\<close>, with Python's floor division.\<close>

definition total_batches :: "'a list \<Rightarrow> int" where
  "total_batches documents = (int (length documents) - 1) div int batch_size + 1"

text \<open>
  The loop \<open>for i in range(0, len(documents), batch_size)\<close>, from the index \<open>i\<close> on.
  An exception of \<open>insert_many\<close> is caught inside the loop body.
\<close>

function insert_batches ::
  "('s, simple_doc, 'r) store \<Rightarrow> simple_doc list \<Rightarrow> nat \<Rightarrow> (unit, 's, simple_doc) prog" where
  "insert_batches api documents i =
     (if i < length documents then
        (let batch = slice documents i (i + batch_size) in
         next_do
           (try_except
              (next_do (remote_call (Insert_Many batch) (insert_many api batch))
                 (print_line (''   Inserted batch '' @ str_nat (i div batch_size + 1) @ ''/''
                    @ str_int (total_batches documents)
                    @ '' ('' @ str_nat (length batch) @ '' documents)'')))
              (\<lambda>e. print_line (''   Error inserting batch '' @ str_nat (i div batch_size + 1)
                    @ '': '' @ str_error e)))
           (next_do (sleep 500) (insert_batches api documents (i + batch_size))))
      else ret ())"
  by pat_completeness auto
termination
  by (relation "measure (\<lambda>(api, documents, i). length documents - i)")
     (auto simp: batch_size_def)

declare insert_batches.simps [simp del]

definition ingest_to_astra ::
  "env \<Rightarrow> ('s, simple_doc, 'r) store \<Rightarrow> string list \<Rightarrow> string \<Rightarrow> string
     \<Rightarrow> (unit, 's, simple_doc) prog" where
  "ingest_to_astra cfg api chunks collection_name pdf_filename =
     next_do (print_line (nl @ ''[*] Ingesting to Astra DB collection: '' @ quoted collection_name))
     (if falsy (ASTRA_DB_API_ENDPOINT cfg) \<or> falsy (ASTRA_DB_APPLICATION_TOKEN cfg)
      then throw (ValueError ''Missing Astra DB credentials. Check your .env file.'')
      else
        next_do (print_line ''   Connecting to Astra DB...'')
       (next_do (remote_call (Data_API_Client (ASTRA_DB_APPLICATION_TOKEN cfg))
                   (data_api_client api (ASTRA_DB_APPLICATION_TOKEN cfg)))
       (next_do (remote_call (Get_Database (ASTRA_DB_API_ENDPOINT cfg))
                   (get_database api (ASTRA_DB_API_ENDPOINT cfg)))
       (next_do (print_line (''   Getting collection '' @ quoted collection_name @ ''...''))
       (next_do (remote_call (Get_Collection collection_name) (get_collection api collection_name))
       (next_do (print_line ''   Collection retrieved successfully!'')
       (next_do (print_line (''   Preparing '' @ str_nat (length chunks) @ '' documents...''))
       (next_do (print_line ''   Inserting documents into Astra DB...'')
       (next_do (insert_batches api (prepare_documents chunks pdf_filename) 0)
       (next_do (print_line ''[+] Successfully ingested chunks to Astra DB!'')
       (next_do (print_line (''   Collection: '' @ collection_name))
       (print_line (''   Source: '' @ pdf_filename)))))))))))))"

section \<open>Ingestion with local embeddings (ingest\_pdf\_to\_astra\_v2.py)\<close>

record metadata =
  md_source :: string
  md_chunk_id :: nat
  md_total_chunks :: nat

record 'v vector_doc =
  vd_id :: string
  vd_text :: string
  vd_vector :: "'v list"
  vd_metadata :: metadata

text \<open>
  The embedding model: loading it and embedding a text may raise; an embedding is a list
  of numbers of a type \<open>'v\<close> that is left open.
\<close>

record 'v embeddings =
  load_model :: "error + unit"
  embed_query :: "string \<Rightarrow> error + 'v list"

text \<open>The \<open>_id\<close> of a document: \<open>f"{pdf_filename}_chunk_{i}"\<close>.\<close>

definition record_id_v2 :: "string \<Rightarrow> nat \<Rightarrow> string" where
  "record_id_v2 pdf_filename i = pdf_filename @ ''_chunk_'' @ str_nat i"

text \<open>The loop over \<open>enumerate(chunks)\<close> that embeds each chunk and builds its document.\<close>

fun prepare_documents_v2 ::
  "'v embeddings \<Rightarrow> string \<Rightarrow> nat \<Rightarrow> (nat \<times> string) list \<Rightarrow> ('v vector_doc list, 's, 'd) prog" where
  "prepare_documents_v2 emb pdf_filename n [] = ret []"
| "prepare_documents_v2 emb pdf_filename n ((i, chunk) # rest) =
     next_do
       (if i mod 10 = 0
        then print_line (''   Processing chunk '' @ str_nat (i + 1) @ ''/'' @ str_nat n @ ''...'')
        else ret ())
       (andthen (from_result (embed_query emb chunk)) (\<lambda>embedding.
        andthen (prepare_documents_v2 emb pdf_filename n rest) (\<lambda>docs.
        ret (\<lparr>vd_id = record_id_v2 pdf_filename i,
              vd_text = chunk,
              vd_vector = embedding,
              vd_metadata = \<lparr>md_source = pdf_filename, md_chunk_id = i, md_total_chunks = n\<rparr>\<rparr>
             # docs))))"

text \<open>
  The loop \<open>for i in range(0, len(documents), batch_size)\<close> of this script, from the
  index \<open>i\<close> on. Nothing catches an exception of \<open>insert_many\<close> here.
\<close>

function insert_batches_v2 ::
  "('s, 'v vector_doc, 'r) store \<Rightarrow> 'v vector_doc list \<Rightarrow> nat \<Rightarrow> (unit, 's, 'v vector_doc) prog" where
  "insert_batches_v2 api documents i =
     (if i < length documents then
        (let batch = slice documents i (i + batch_size) in
         next_do (remote_call (Insert_Many batch) (insert_many api batch))
        (next_do (print_line (''   Inserted batch '' @ str_nat (i div batch_size + 1) @ ''/''
                    @ str_int (total_batches documents)))
        (next_do (sleep 100) (insert_batches_v2 api documents (i + batch_size)))))
      else ret ())"
  by pat_completeness auto
termination
  by (relation "measure (\<lambda>(api, documents, i). length documents - i)")
     (auto simp: batch_size_def)

declare insert_batches_v2.simps [simp del]

definition ingest_to_astra_v2 ::
  "env \<Rightarrow> 'v embeddings \<Rightarrow> ('s, 'v vector_doc, 'r) store \<Rightarrow> string list \<Rightarrow> string \<Rightarrow> string
     \<Rightarrow> (unit, 's, 'v vector_doc) prog" where
  "ingest_to_astra_v2 cfg emb api chunks collection_name pdf_filename =
     next_do (print_line (nl @ ''[*] Ingesting to Astra DB collection: '' @ quoted collection_name))
     (if falsy (ASTRA_DB_API_ENDPOINT cfg) \<or> falsy (ASTRA_DB_APPLICATION_TOKEN cfg)
      then throw (ValueError ''Missing Astra DB credentials. Check your .env file.'')
      else
        next_do (print_line ''   Loading HuggingFace embeddings model...'')
       (next_do (from_result (load_model emb))
       (next_do (print_line ''   Embeddings model loaded successfully!'')
       (next_do (print_line ''   Testing embeddings...'')
       (andthen (from_result (embed_query emb ''test'')) (\<lambda>sample_embedding.
        next_do (print_line (''   Embedding dimension: '' @ str_nat (length sample_embedding)))
       (next_do (print_line ''   Connecting to Astra DB...'')
       (next_do (remote_call (Data_API_Client (ASTRA_DB_APPLICATION_TOKEN cfg))
                   (data_api_client api (ASTRA_DB_APPLICATION_TOKEN cfg)))
       (next_do (remote_call (Get_Database (ASTRA_DB_API_ENDPOINT cfg))
                   (get_database api (ASTRA_DB_API_ENDPOINT cfg)))
       (next_do (print_line (''   Creating/getting collection '' @ quoted collection_name @ ''...''))
       (next_do
          (try_except
             (next_do (remote_call (Create_Collection collection_name)
                         (create_collection api collection_name))
                (print_line ''   Collection created successfully!''))
             (\<lambda>e. next_do (print_line ''   Collection may already exist, attempting to get it...'')
                  (next_do (remote_call (Get_Collection collection_name)
                              (get_collection api collection_name))
                  (print_line ''   Using existing collection!''))))
       (next_do (print_line (''   Preparing '' @ str_nat (length chunks) @ '' documents...''))
       (andthen (prepare_documents_v2 emb pdf_filename (length chunks) (enumerate 0 chunks))
          (\<lambda>documents.
        next_do (print_line ''   Inserting documents into Astra DB...'')
       (next_do (insert_batches_v2 api documents 0)
       (next_do (print_line (''[+] Successfully ingested '' @ str_nat (length documents)
                   @ '' chunks to Astra DB!''))
       (next_do (print_line (''   Collection: '' @ collection_name))
       (print_line (''   Source: '' @ pdf_filename)))))))))))))))))))"

section \<open>The chunker\<close>

text \<open>
  \<open>chunk_text\<close> builds a \<open>RecursiveCharacterTextSplitter\<close> with the separators
  \<open>["\n\n", "\n", " ", ""]\<close> and \<open>len\<close> as the length function, and returns what its
  \<open>split_text\<close> returns. The splitter belongs to an imported package whose code is not
  part of the sources; the definitions from \<open>str_contains\<close> to \<open>split_text\<close> stand for
  it and follow section 4.1 of the specification. Sizes count characters and are natural
  numbers.
\<close>

text \<open>Modelled from the spec: whether a break point \<open>sep\<close> occurs in \<open>s\<close> (the splitter's
  search for a separator is missing from the sources).\<close>

fun str_contains :: "string \<Rightarrow> string \<Rightarrow> bool" where
  "str_contains sep [] = (sep = [])"
| "str_contains sep (c # cs) = (prefix sep (c # cs) \<or> str_contains sep cs)"

text \<open>Modelled from the spec: the pieces of \<open>s\<close> between the occurrences of a non-empty
  break point \<open>sep\<close>, found from the left (the splitter's splitting step is missing from
  the sources).\<close>

function split_on :: "string \<Rightarrow> string \<Rightarrow> string list" where
  "split_on sep [] = [[]]"
| "split_on sep (c # cs) =
     (if sep \<noteq> [] \<and> prefix sep (c # cs)
      then [] # split_on sep (drop (length sep) (c # cs))
      else (case split_on sep cs of [] \<Rightarrow> [[c]] | p # ps \<Rightarrow> (c # p) # ps))"
  by pat_completeness auto
termination
  by (relation "measure (\<lambda>(sep, s). length s)") auto

text \<open>Modelled from the spec: the splits of a text at one priority level (missing from
  the sources). At a paragraph, line or word boundary the break point stays at the head of
  the piece that follows it, so that no character is lost; at the character level
  (the empty separator) every character is a piece. Empty pieces are dropped.\<close>

definition split_at :: "string \<Rightarrow> string \<Rightarrow> string list" where
  "split_at sep s =
     filter (\<lambda>p. p \<noteq> [])
       (if sep = [] then map (\<lambda>c. [c]) s
        else (case split_on sep s of [] \<Rightarrow> [] | p # ps \<Rightarrow> p # map (\<lambda>q. sep @ q) ps))"

text \<open>Modelled from the spec: a chunk is the concatenation of consecutive pieces with
  the surrounding whitespace removed, and "no chunk may be empty": an empty one is not
  produced (missing from the sources).\<close>

definition join_docs :: "string list \<Rightarrow> string list" where
  "join_docs current_doc = (let t = strip (concat current_doc) in if t = [] then [] else [t])"

text \<open>Modelled from the spec: after a chunk is produced, pieces are dropped from its
  front until what is kept as the overlap with the next chunk is at most \<open>chunk_overlap\<close>
  characters and leaves room for the next piece of \<open>len\<close> characters (missing from the
  sources).\<close>

fun keep_overlap :: "nat \<Rightarrow> nat \<Rightarrow> nat \<Rightarrow> string list \<Rightarrow> string list" where
  "keep_overlap chunk_size chunk_overlap len [] = []"
| "keep_overlap chunk_size chunk_overlap len (d # ds) =
     (if length (concat (d # ds)) > chunk_overlap
         \<or> (length (concat (d # ds)) + len > chunk_size \<and> length (concat (d # ds)) > 0)
      then keep_overlap chunk_size chunk_overlap len ds
      else d # ds)"

text \<open>Modelled from the spec: small pieces are merged, in order, into chunks of at most
  \<open>chunk_size\<close> characters; \<open>current_doc\<close> holds the pieces of the chunk being filled
  (missing from the sources).\<close>

fun merge_splits :: "nat \<Rightarrow> nat \<Rightarrow> string list \<Rightarrow> string list \<Rightarrow> string list" where
  "merge_splits chunk_size chunk_overlap current_doc [] = join_docs current_doc"
| "merge_splits chunk_size chunk_overlap current_doc (d # ds) =
     (if length (concat current_doc) + length d > chunk_size \<and> current_doc \<noteq> []
      then join_docs current_doc
           @ merge_splits chunk_size chunk_overlap
               (keep_overlap chunk_size chunk_overlap (length d) current_doc @ [d]) ds
      else merge_splits chunk_size chunk_overlap (current_doc @ [d]) ds)"

text \<open>Modelled from the spec: the pieces of one level, in order: runs of pieces shorter
  than \<open>chunk_size\<close> are merged into chunks, and a piece that is not shorter is split
  further by \<open>deeper\<close>, the next priority level (missing from the sources).\<close>

fun split_groups ::
  "nat \<Rightarrow> nat \<Rightarrow> (string \<Rightarrow> string list) \<Rightarrow> string list \<Rightarrow> string list \<Rightarrow> string list" where
  "split_groups chunk_size chunk_overlap deeper good [] =
     (if good \<noteq> [] then merge_splits chunk_size chunk_overlap [] good else [])"
| "split_groups chunk_size chunk_overlap deeper good (s # ss) =
     (if length s < chunk_size
      then split_groups chunk_size chunk_overlap deeper (good @ [s]) ss
      else (if good \<noteq> [] then merge_splits chunk_size chunk_overlap [] good else [])
           @ deeper s
           @ split_groups chunk_size chunk_overlap deeper [] ss)"

text \<open>Modelled from the spec: the text is split at the first break point of the priority
  list that occurs in it (paragraph, then line, then word, then character boundaries);
  a piece that is still too long is split at the break points that follow in the list,
  and with no break point left it is kept as it is (missing from the sources).\<close>

fun split_text_rec :: "nat \<Rightarrow> nat \<Rightarrow> string list \<Rightarrow> string \<Rightarrow> string list" where
  "split_text_rec chunk_size chunk_overlap [] s = [s]"
| "split_text_rec chunk_size chunk_overlap (sep # seps) s =
     (if sep = [] then
        split_groups chunk_size chunk_overlap (\<lambda>p. [p]) [] (split_at sep s)
      else if str_contains sep s then
        split_groups chunk_size chunk_overlap
          (\<lambda>p. split_text_rec chunk_size chunk_overlap seps p) [] (split_at sep s)
      else if seps = [] then
        split_groups chunk_size chunk_overlap (\<lambda>p. [p]) [] (split_at sep s)
      else split_text_rec chunk_size chunk_overlap seps s)"

text \<open>Modelled from the spec: the contract \<open>chunk(text, chunk_size, chunk_overlap)\<close> with
  \<open>chunk_overlap < chunk_size\<close>; a violated precondition is the ChunkingError of section 7
  (the splitter's constructor and \<open>split_text\<close> are missing from the sources).\<close>

definition split_text :: "nat \<Rightarrow> nat \<Rightarrow> string list \<Rightarrow> string \<Rightarrow> error + string list" where
  "split_text chunk_size chunk_overlap seps s =
     (if chunk_overlap < chunk_size then Inr (split_text_rec chunk_size chunk_overlap seps s)
      else Inl ChunkingError)"

text \<open>The separators \<open>chunk_text\<close> passes: \<open>["\n\n", "\n", " ", ""]\<close>.\<close>

definition separators :: "string list" where
  "separators = [nl @ nl, nl, '' '', '''']"

definition chunk_text :: "string \<Rightarrow> nat \<Rightarrow> nat \<Rightarrow> (string list, 's, 'd) prog" where
  "chunk_text s chunk_size chunk_overlap =
     next_do (print_line (nl @ ''[*] Chunking text (size='' @ str_nat chunk_size
                @ '', overlap='' @ str_nat chunk_overlap @ '')''))
    (andthen (from_result (split_text chunk_size chunk_overlap separators s)) (\<lambda>chunks.
     next_do (print_line (''[+] Created '' @ str_nat (length chunks) @ '' chunks''))
    (ret chunks)))"

section \<open>The ingestion script's entry point (ingest\_pdf\_simple.py)\<close>

text \<open>
  The PDF reader is a collaborator: opening a file gives its pages or raises, and
  \<open>extract_text()\<close> of a page gives its text or raises.
\<close>

record filesystem =
  path_exists :: "string \<Rightarrow> bool"
  pdf_reader :: "string \<Rightarrow> error + (error + string) list"

text \<open>The loop \<open>for page_num, page in enumerate(reader.pages, 1)\<close>; \<open>s\<close> is the text so far.\<close>

fun extract_pages :: "nat \<Rightarrow> (nat \<times> (error + string)) list \<Rightarrow> string \<Rightarrow> (string, 's, 'd) prog" where
  "extract_pages n [] s = ret s"
| "extract_pages n ((page_num, page) # rest) s =
     andthen (from_result page) (\<lambda>page_text.
     next_do (print_line (''   Processed page '' @ str_nat page_num @ ''/'' @ str_nat n))
    (extract_pages n rest (s @ page_text @ nl @ nl)))"

definition extract_text_from_pdf ::
  "(string \<Rightarrow> error + (error + string) list) \<Rightarrow> string \<Rightarrow> (string, 's, 'd) prog" where
  "extract_text_from_pdf reader path =
     next_do (print_line (''[*] Reading PDF: '' @ path))
    (andthen (from_result (reader path)) (\<lambda>pages.
     andthen (extract_pages (length pages) (enumerate 1 pages) '''') (\<lambda>s.
     next_do (print_line (''[+] Extracted '' @ str_nat (length s) @ '' characters from ''
                @ str_nat (length pages) @ '' pages''))
    (ret s))))"

text \<open>The parsed command line. The two sizes count characters.\<close>

record args =
  pdf_path :: string
  collection :: string
  chunk_size :: nat
  chunk_overlap :: nat

text \<open>Steps 2 and 3 of \<open>main\<close>: chunk the text, ingest the chunks, report completion.\<close>

definition chunk_and_ingest ::
  "env \<Rightarrow> ('s, simple_doc, 'r) store \<Rightarrow> string \<Rightarrow> nat \<Rightarrow> nat \<Rightarrow> string \<Rightarrow> string
     \<Rightarrow> (unit, 's, simple_doc) prog" where
  "chunk_and_ingest cfg api s csize coverlap collection_name pdf_filename =
     andthen (chunk_text s csize coverlap) (\<lambda>chunks.
     next_do (ingest_to_astra cfg api chunks collection_name pdf_filename)
    (next_do (print_line (nl @ rule_line CHR ''='' 60))
    (next_do (print_line ''[+] INGESTION COMPLETE!'')
    (print_line (rule_line CHR ''='' 60)))))"

definition main ::
  "env \<Rightarrow> filesystem \<Rightarrow> ('s, simple_doc, 'r) store \<Rightarrow> args \<Rightarrow> (unit, 's, simple_doc) prog" where
  "main cfg fs api a =
     (if \<not> path_exists fs (pdf_path a)
      then print_line (''[-] Error: PDF file not found: '' @ pdf_path a)
      else
        next_do (print_line (rule_line CHR ''='' 60))
       (next_do (print_line ''PDF TO ASTRA VECTOR DATABASE INGESTION'')
       (next_do (print_line ''Using Astra DB Built-in Vectorization'')
       (next_do (print_line (rule_line CHR ''='' 60))
       (next_do (print_line (''PDF File: '' @ basename (pdf_path a)))
       (next_do (print_line (''Collection: '' @ collection a))
       (next_do (print_line (''Chunk Size: '' @ str_nat (chunk_size a)))
       (next_do (print_line (''Chunk Overlap: '' @ str_nat (chunk_overlap a)))
       (next_do (print_line (rule_line CHR ''='' 60))
       (next_do (print_line '''')
       (try_except
          (andthen (extract_text_from_pdf (pdf_reader fs) (pdf_path a)) (\<lambda>s.
             if strip s = []
             then print_line ''[-] Error: No text extracted from PDF. The PDF might be image-based.''
             else chunk_and_ingest cfg api s (chunk_size a) (chunk_overlap a) (collection a)
                    (basename (pdf_path a))))
          (\<lambda>e. next_do (print_line (nl @ ''[-] Error during ingestion: '' @ str_error e))
               (print_exc e)))))))))))))"

section \<open>The query script (query\_astra.py)\<close>

text \<open>
  A document returned by the search. A field may be missing; a field that is present is
  held as the text that printing it gives (the similarity in the format \<open>.4f\<close>).
\<close>

record result_doc =
  r_id :: "string option"
  r_source :: "string option"
  r_chunk_id :: "string option"
  r_total_chunks :: "string option"
  r_similarity :: "string option"
  r_vectorize :: "string option"

text \<open>\<open>doc.get(key, default)\<close>.\<close>

definition get_or :: "'a option \<Rightarrow> 'a \<Rightarrow> 'a" where
  "get_or v d = (case v of None \<Rightarrow> d | Some x \<Rightarrow> x)"

text \<open>\<open>s.encode('ascii', 'ignore').decode('ascii')\<close>.\<close>

definition ascii_only :: "string \<Rightarrow> string" where
  "ascii_only s = filter (\<lambda>c. (of_char c :: nat) < 128) s"

text \<open>The body of the loop over the results, for the \<open>i\<close>-th result.\<close>

definition show_result :: "nat \<Rightarrow> result_doc \<Rightarrow> (unit, 's, 'd) prog" where
  "show_result i doc =
     (let vectorized_text = get_or (r_vectorize doc) ''No text content'';
          preview = (if length vectorized_text > 500 then take 500 vectorized_text
                     else vectorized_text)
      in
        next_do (print_line (nl @ ''[Result '' @ str_nat i @ '']''))
       (next_do (print_line (''Document ID: '' @ get_or (r_id doc) ''N/A''))
       (next_do (print_line (''Source: '' @ get_or (r_source doc) ''N/A''))
       (next_do (print_line (''Chunk: '' @ get_or (r_chunk_id doc) ''N/A'' @ '' of ''
                   @ get_or (r_total_chunks doc) ''N/A''))
       (next_do (case r_similarity doc of
                   None \<Rightarrow> ret ()
                 | Some similarity_score \<Rightarrow> print_line (''Similarity Score: '' @ similarity_score))
       (next_do (print_line (nl @ ''Content Preview:''))
       (next_do (print_line (rule_line CHR ''-'' 80))
       (next_do (print_line (ascii_only preview))
       (next_do (if length vectorized_text > 500
                 then print_line (nl @ ''... (showing '' @ str_nat (length preview) @ '' of ''
                        @ str_nat (length vectorized_text) @ '' characters)'')
                 else ret ())
       (print_line (rule_line CHR ''-'' 80)))))))))))"

text \<open>The loop \<open>for i, doc in enumerate(results, 1)\<close>; it returns \<open>result_count\<close>.\<close>

fun show_results :: "(nat \<times> result_doc) list \<Rightarrow> nat \<Rightarrow> (nat, 's, 'd) prog" where
  "show_results [] result_count = ret result_count"
| "show_results ((i, doc) # rest) result_count =
     next_do (show_result i doc) (show_results rest i)"

definition query_astra ::
  "env \<Rightarrow> ('s, 'd, result_doc) store \<Rightarrow> string \<Rightarrow> string \<Rightarrow> int \<Rightarrow> (unit, 's, 'd) prog" where
  "query_astra cfg api query_text collection_name limit =
     (if falsy (ASTRA_DB_API_ENDPOINT cfg) \<or> falsy (ASTRA_DB_APPLICATION_TOKEN cfg)
      then throw (ValueError ''Missing Astra DB credentials. Check your .env file.'')
      else
        next_do (print_line (nl @ ''[*] Connecting to Astra DB...''))
       (next_do (remote_call (Data_API_Client (ASTRA_DB_APPLICATION_TOKEN cfg))
                   (data_api_client api (ASTRA_DB_APPLICATION_TOKEN cfg)))
       (next_do (remote_call (Get_Database_By_Api_Endpoint (ASTRA_DB_API_ENDPOINT cfg))
                   (get_database_by_api_endpoint api (ASTRA_DB_API_ENDPOINT cfg)))
       (next_do (print_line (''[*] Accessing collection '' @ quoted collection_name @ ''...''))
       (next_do (remote_call (Get_Collection collection_name) (get_collection api collection_name))
       (next_do (print_line (''[*] Searching for: '' @ quoted query_text))
       (next_do (print_line (''[*] Retrieving top '' @ str_int limit @ '' results...'' @ nl))
       (andthen (remote_call (Find query_text limit) (find_sorted api query_text limit))
          (\<lambda>results.
        next_do (print_line (rule_line CHR ''='' 80))
       (next_do (print_line ''SEARCH RESULTS'')
       (next_do (print_line (rule_line CHR ''='' 80))
       (andthen (show_results (enumerate 1 results) 0) (\<lambda>result_count.
        next_do (if result_count = 0
                 then print_line (nl @ ''[!] No results found. The collection might be empty or the query didn'' @ [CHR 0x27] @ ''t match any documents.'')
                 else print_line (nl @ ''[+] Found '' @ str_nat result_count @ '' result(s)''))
       (print_line (rule_line CHR ''='' 80)))))))))))))))"

text \<open>The loop \<open>for i, coll_name in enumerate(collections, 1)\<close>.\<close>

fun show_collections :: "(nat \<times> string) list \<Rightarrow> (unit, 's, 'd) prog" where
  "show_collections [] = ret ()"
| "show_collections ((i, coll_name) # rest) =
     next_do (print_line (str_nat i @ ''. '' @ coll_name)) (show_collections rest)"

definition list_collections :: "env \<Rightarrow> ('s, 'd, 'r) store \<Rightarrow> (unit, 's, 'd) prog" where
  "list_collections cfg api =
     next_do (print_line (nl @ ''[*] Connecting to Astra DB...''))
    (next_do (remote_call (Data_API_Client (ASTRA_DB_APPLICATION_TOKEN cfg))
                (data_api_client api (ASTRA_DB_APPLICATION_TOKEN cfg)))
    (next_do (remote_call (Get_Database_By_Api_Endpoint (ASTRA_DB_API_ENDPOINT cfg))
                (get_database_by_api_endpoint api (ASTRA_DB_API_ENDPOINT cfg)))
    (next_do (print_line ''[*] Fetching collections...'')
    (andthen (remote_call List_Collection_Names (list_collection_names api)) (\<lambda>collections.
     next_do (print_line (nl @ rule_line CHR ''='' 60))
    (next_do (print_line ''AVAILABLE COLLECTIONS'')
    (next_do (print_line (rule_line CHR ''='' 60))
    (next_do (show_collections (enumerate 1 collections))
    (next_do (print_line (rule_line CHR ''='' 60))
    (print_line (nl @ ''Total collections: '' @ str_nat (length collections))))))))))))"

section \<open>Notions the properties are stated with\<close>

text \<open>The three parts of what a run returns.\<close>

definition outcome :: "(error + 'a) \<times> 's \<times> 'd event list \<Rightarrow> error + 'a" where
  "outcome r = fst r"

definition after :: "(error + 'a) \<times> 's \<times> 'd event list \<Rightarrow> 's" where
  "after r = fst (snd r)"

definition events :: "(error + 'a) \<times> 's \<times> 'd event list \<Rightarrow> 'd event list" where
  "events r = snd (snd r)"

text \<open>\<open>list(range(i, stop, step))\<close> for a positive step.\<close>

function range_step :: "nat \<Rightarrow> nat \<Rightarrow> nat \<Rightarrow> nat list" where
  "range_step i stop step =
     (if i < stop \<and> 0 < step then i # range_step (i + step) stop step else [])"
  by pat_completeness auto
termination
  by (relation "measure (\<lambda>(i, stop, step). stop - i)") auto

declare range_step.simps [simp del]

text \<open>
  The batches the insertion loops form, in order:
  \<open>[documents[i:i+batch_size] for i in range(0, len(documents), batch_size)]\<close>.
\<close>

definition batches :: "'a list \<Rightarrow> 'a list list" where
  "batches documents =
     map (\<lambda>i. slice documents i (i + batch_size)) (range_step 0 (length documents) batch_size)"

text \<open>The record ids of the documents a run submitted, in order.\<close>

definition submitted_ids :: "simple_doc event list \<Rightarrow> string list" where
  "submitted_ids evs = map doc_id (concat (inserted_batches evs))"

text \<open>The store can be reached: creating the client, getting the database and getting a
  collection never raise.\<close>

definition connection_ok :: "('s, 'd, 'r) store \<Rightarrow> bool" where
  "connection_ok api =
     ((\<forall>t s. fst (data_api_client api t s) = Inr ())
      \<and> (\<forall>e s. fst (get_database api e s) = Inr ())
      \<and> (\<forall>e s. fst (get_database_by_api_endpoint api e s) = Inr ())
      \<and> (\<forall>c s. fst (get_collection api c s) = Inr ()))"

text \<open>
  A store for concrete runs. Its state counts the calls of \<open>insert_many\<close>; the calls
  whose number is in \<open>failing\<close> raise, a search answers \<open>found\<close>, and every other
  operation succeeds.
\<close>

definition counting_store :: "nat list \<Rightarrow> (error + 'r list) \<Rightarrow> (nat, 'd, 'r) store" where
  "counting_store failing found =
     \<lparr>data_api_client = (\<lambda>t s. (Inr (), s)),
      get_database = (\<lambda>e s. (Inr (), s)),
      get_database_by_api_endpoint = (\<lambda>e s. (Inr (), s)),
      get_collection = (\<lambda>c s. (Inr (), s)),
      create_collection = (\<lambda>c s. (Inr (), s)),
      insert_many = (\<lambda>b s. (if Suc s \<in> set failing
                              then Inl (ExternalError ''quota exceeded'') else Inr (), Suc s)),
      find_sorted = (\<lambda>q l s. (found, s)),
      list_collection_names = (\<lambda>s. (Inr [], s))\<rparr>"

text \<open>An embedding model for concrete runs: every text is embedded as the empty vector.\<close>

definition null_embeddings :: "nat embeddings" where
  "null_embeddings = \<lparr>load_model = Inr (), embed_query = (\<lambda>s. Inr [])\<rparr>"

definition both_credentials :: env where
  "both_credentials =
     \<lparr>ASTRA_DB_API_ENDPOINT = Some ''https://db.example'',
      ASTRA_DB_APPLICATION_TOKEN = Some ''AstraCS:token''\<rparr>"

definition no_credentials :: env where
  "no_credentials = \<lparr>ASTRA_DB_API_ENDPOINT = None, ASTRA_DB_APPLICATION_TOKEN = None\<rparr>"

text \<open>Reading a decimal numeral back, to show that \<open>str_nat\<close> loses nothing.\<close>

definition nat_of_digits :: "string \<Rightarrow> nat" where
  "nat_of_digits s = foldl (\<lambda>acc c. 10 * acc + (of_char c - 48)) 0 s"

text \<open>
  Documents for concrete runs of the script with local embeddings: what it prepares from
  \<open>n\<close> chunks of \<open>report.pdf\<close> under \<open>null_embeddings\<close>.
\<close>

definition sample_vector_docs :: "nat \<Rightarrow> nat vector_doc list" where
  "sample_vector_docs n =
     map (\<lambda>i. \<lparr>vd_id = record_id_v2 ''report.pdf'' i,
                vd_text = ''chunk'',
                vd_vector = [],
                vd_metadata = \<lparr>md_source = ''report.pdf'', md_chunk_id = i,
                                md_total_chunks = n\<rparr>\<rparr>)
         [0..<n]"

section \<open>Lemmas\<close>

subsection \<open>Runs\<close>

lemma run_ret [simp]:
  "outcome (ret x s) = Inr x" "after (ret x s) = s" "events (ret x s) = []"
  by (simp_all add: outcome_def after_def events_def ret_def)

lemma run_throw [simp]:
  "outcome (throw e s) = Inl e" "after (throw e s) = s" "events (throw e s) = []"
  by (simp_all add: outcome_def after_def events_def throw_def)

lemma run_print_line [simp]:
  "outcome (print_line m s) = Inr ()" "after (print_line m s) = s"
  "events (print_line m s) = [Print m]"
  by (simp_all add: outcome_def after_def events_def print_line_def)

lemma run_sleep [simp]:
  "outcome (sleep n s) = Inr ()" "after (sleep n s) = s" "events (sleep n s) = [Sleep n]"
  by (simp_all add: outcome_def after_def events_def sleep_def)

lemma run_print_exc [simp]:
  "outcome (print_exc e s) = Inr ()" "after (print_exc e s) = s"
  "events (print_exc e s) = [Traceback e]"
  by (simp_all add: outcome_def after_def events_def print_exc_def)

lemma run_from_result [simp]:
  "outcome (from_result r s) = r" "after (from_result r s) = s" "events (from_result r s) = []"
  by (simp_all add: outcome_def after_def events_def from_result_def)

lemma run_remote_call [simp]:
  "outcome (remote_call c answer s) = fst (answer s)"
  "after (remote_call c answer s) = snd (answer s)"
  "events (remote_call c answer s) = [Call c]"
  by (simp_all add: outcome_def after_def events_def remote_call_def split: prod.splits)

lemma run_andthen:
  "outcome (andthen m f s) =
     (case outcome (m s) of Inl e \<Rightarrow> Inl e | Inr x \<Rightarrow> outcome (f x (after (m s))))"
  "after (andthen m f s) =
     (case outcome (m s) of Inl e \<Rightarrow> after (m s) | Inr x \<Rightarrow> after (f x (after (m s))))"
  "events (andthen m f s) =
     events (m s) @ (case outcome (m s) of Inl e \<Rightarrow> [] | Inr x \<Rightarrow> events (f x (after (m s))))"
  by (simp_all add: outcome_def after_def events_def andthen_def split: prod.splits sum.splits)

lemma run_next_do:
  "outcome (next_do m n s) =
     (case outcome (m s) of Inl e \<Rightarrow> Inl e | Inr x \<Rightarrow> outcome (n (after (m s))))"
  "after (next_do m n s) =
     (case outcome (m s) of Inl e \<Rightarrow> after (m s) | Inr x \<Rightarrow> after (n (after (m s))))"
  "events (next_do m n s) =
     events (m s) @ (case outcome (m s) of Inl e \<Rightarrow> [] | Inr x \<Rightarrow> events (n (after (m s))))"
  by (simp_all add: next_do_def run_andthen)

lemma run_try_except:
  "outcome (try_except m h s) =
     (case outcome (m s) of Inl e \<Rightarrow> outcome (h e (after (m s))) | Inr x \<Rightarrow> Inr x)"
  "after (try_except m h s) =
     (case outcome (m s) of Inl e \<Rightarrow> after (h e (after (m s))) | Inr x \<Rightarrow> after (m s))"
  "events (try_except m h s) =
     events (m s) @ (case outcome (m s) of Inl e \<Rightarrow> events (h e (after (m s))) | Inr x \<Rightarrow> [])"
  by (simp_all add: outcome_def after_def events_def try_except_def split: prod.splits sum.splits)

lemmas run_simps = run_andthen run_next_do run_try_except

lemma calls_of_simps [simp]:
  "calls_of [] = []"
  "calls_of (Print m # evs) = calls_of evs"
  "calls_of (Sleep n # evs) = calls_of evs"
  "calls_of (Traceback e # evs) = calls_of evs"
  "calls_of (Call c # evs) = c # calls_of evs"
  "calls_of (xs @ ys) = calls_of xs @ calls_of ys"
  by (simp_all add: calls_of_def)

lemma inserted_batches_simps [simp]:
  "inserted_batches [] = []"
  "inserted_batches (Print m # evs) = inserted_batches evs"
  "inserted_batches (Sleep n # evs) = inserted_batches evs"
  "inserted_batches (Traceback e # evs) = inserted_batches evs"
  "inserted_batches (Call (Insert_Many b) # evs) = b # inserted_batches evs"
  "inserted_batches (xs @ ys) = inserted_batches xs @ inserted_batches ys"
  by (simp_all add: inserted_batches_def)

lemma inserted_batches_other_call [simp]:
  "inserted_batches (Call (Data_API_Client t) # evs) = inserted_batches evs"
  "inserted_batches (Call (Get_Database t) # evs) = inserted_batches evs"
  "inserted_batches (Call (Get_Database_By_Api_Endpoint t) # evs) = inserted_batches evs"
  "inserted_batches (Call (Get_Collection c) # evs) = inserted_batches evs"
  "inserted_batches (Call (Create_Collection c) # evs) = inserted_batches evs"
  "inserted_batches (Call (Find q l) # evs) = inserted_batches evs"
  "inserted_batches (Call List_Collection_Names # evs) = inserted_batches evs"
  by (simp_all add: inserted_batches_def)

subsection \<open>Batches\<close>

lemma range_step_nth:
  "0 < step \<Longrightarrow> k < length (range_step i stop step) \<Longrightarrow> range_step i stop step ! k = i + k * step"
proof (induction i stop step arbitrary: k rule: range_step.induct)
  case (1 i stop step)
  show ?case
  proof (cases "i < stop \<and> 0 < step")
    case True
    then have eq: "range_step i stop step = i # range_step (i + step) stop step"
      by (subst range_step.simps) simp
    show ?thesis
    proof (cases k)
      case 0
      then show ?thesis using eq by simp
    next
      case (Suc k')
      with "1.prems" eq have "k' < length (range_step (i + step) stop step)" by simp
      with "1.IH" True "1.prems"(1) have "range_step (i + step) stop step ! k' = i + step + k' * step"
        by blast
      with eq Suc show ?thesis by simp
    qed
  next
    case False
    then have "range_step i stop step = []" by (subst range_step.simps) simp
    with "1.prems" show ?thesis by simp
  qed
qed

lemma range_step_length:
  "0 < step \<Longrightarrow> length (range_step i stop step) = (stop - i + (step - 1)) div step"
proof (induction i stop step rule: range_step.induct)
  case (1 i stop step)
  show ?case
  proof (cases "i < stop")
    case True
    with "1.prems" have eq: "range_step i stop step = i # range_step (i + step) stop step"
      by (subst range_step.simps) simp
    have ih: "length (range_step (i + step) stop step) = (stop - (i + step) + (step - 1)) div step"
      using "1.IH" True "1.prems" by blast
    from True "1.prems" have ge: "step \<le> stop - i + (step - 1)"
      by simp
    have a: "(stop - i + (step - 1)) div step = Suc ((stop - i + (step - 1) - step) div step)"
      using "1.prems" ge by (rule le_div_geq)
    have b: "(stop - i + (step - 1) - step) div step = (stop - (i + step) + (step - 1)) div step"
    proof (cases "i + step \<le> stop")
      case True
      then have "stop - i + (step - 1) - step = stop - (i + step) + (step - 1)"
        using "1.prems" by simp
      then show ?thesis by (simp only:)
    next
      case False
      then have "stop - i + (step - 1) - step < step" "stop - (i + step) + (step - 1) < step"
        using "1.prems" True by simp_all
      then show ?thesis by (simp only: div_less)
    qed
    from eq ih have "length (range_step i stop step)
        = Suc ((stop - (i + step) + (step - 1)) div step)" by simp
    with a b show ?thesis by (simp only:)
  next
    case False
    then have "range_step i stop step = []" by (subst range_step.simps) simp
    moreover from False "1.prems" have "(stop - i + (step - 1)) div step = 0" by simp
    ultimately show ?thesis by simp
  qed
qed

lemma concat_slices:
  "0 < step \<Longrightarrow>
   concat (map (\<lambda>k. slice xs k (k + step)) (range_step i (length xs) step)) = drop i xs"
proof (induction i "length xs" step rule: range_step.induct)
  case (1 i step)
  show ?case
  proof (cases "i < length xs")
    case True
    with "1.prems" have eq: "range_step i (length xs) step = i # range_step (i + step) (length xs) step"
      by (subst range_step.simps) simp
    have "concat (map (\<lambda>k. slice xs k (k + step)) (range_step (i + step) (length xs) step))
            = drop (i + step) xs"
      using "1.hyps" True "1.prems" by blast
    moreover have "take step (drop i xs) @ drop (i + step) xs = drop i xs"
      using append_take_drop_id [of step "drop i xs"] by (simp add: add.commute)
    ultimately show ?thesis
      using eq by (simp add: slice_def del: drop_drop)
  next
    case False
    then have "range_step i (length xs) step = []" by (subst range_step.simps) simp
    with False show ?thesis by simp
  qed
qed

lemma concat_batches: "concat (batches xs) = xs"
  using concat_slices [of batch_size xs 0] by (simp add: batches_def batch_size_def)

lemma length_batches: "length (batches xs) = (length xs + 19) div 20"
  using range_step_length [of batch_size 0 "length xs"] by (simp add: batches_def batch_size_def)

lemma nth_batches:
  assumes "k < length (batches xs)"
  shows "batches xs ! k = take 20 (drop (20 * k) xs)"
proof -
  from assms have k: "k < length (range_step 0 (length xs) batch_size)"
    by (simp add: batches_def)
  then have "range_step 0 (length xs) batch_size ! k = k * batch_size"
    using range_step_nth [of batch_size k 0 "length xs"] by (simp add: batch_size_def)
  with k show ?thesis
    by (simp add: batches_def slice_def batch_size_def mult.commute)
qed

lemma total_batches_eq: "total_batches xs = int (length (batches xs))"
proof (cases "xs = []")
  case True
  then show ?thesis by (simp add: total_batches_def batch_size_def length_batches)
next
  case False
  then have "0 < length xs" by simp
  then have "(int (length xs) - 1) div 20 + 1 = int ((length xs + 19) div 20)"
    by (simp add: zdiv_int)
  then show ?thesis by (simp add: total_batches_def batch_size_def length_batches)
qed

subsection \<open>Decimal rendering\<close>


lemma of_char_digit_char: "n < 10 \<Longrightarrow> (of_char (digit_char n) :: nat) - 48 = n"
  by (simp add: digit_char_def)

lemma nat_of_digits_str_nat: "nat_of_digits (str_nat n) = n"
proof (induction n rule: str_nat.induct)
  case (1 n)
  show ?case
  proof (cases "n < 10")
    case True
    then show ?thesis
      by (subst str_nat.simps) (simp add: nat_of_digits_def of_char_digit_char)
  next
    case False
    then have "nat_of_digits (str_nat (n div 10)) = n div 10"
      using 1 by simp
    with False show ?thesis
      by (subst str_nat.simps) (simp add: nat_of_digits_def of_char_digit_char)
  qed
qed

lemma str_nat_inject: "str_nat i = str_nat j \<longleftrightarrow> i = j"
  by (metis nat_of_digits_str_nat)

lemma record_id_inject: "record_id f i = record_id f j \<longleftrightarrow> i = j"
  by (simp add: record_id_def str_nat_inject)

lemma record_id_v2_inject: "record_id_v2 f i = record_id_v2 f j \<longleftrightarrow> i = j"
  by (simp add: record_id_v2_def str_nat_inject)

lemma doc_ids_prepare_documents:
  "map doc_id (prepare_documents chunks f) = map (record_id f) [0..<length chunks]"
proof -
  have "map doc_id (prepare_documents chunks f)
          = map (\<lambda>x. record_id f (fst x)) (enumerate 0 chunks)"
    by (simp add: prepare_documents_def split_def o_def)
  also have "\<dots> = map (record_id f) (map fst (enumerate 0 chunks))"
    by (simp only: map_map o_def)
  also have "\<dots> = map (record_id f) [0..<length chunks]"
    by simp
  finally show ?thesis .
qed

lemma distinct_doc_ids: "distinct (map doc_id (prepare_documents chunks f))"
  unfolding doc_ids_prepare_documents
  by (simp add: distinct_map inj_on_def record_id_inject)

subsection \<open>The insertion loops\<close>

lemma insert_batches_submits:
  "inserted_batches (events (insert_batches api documents i s))
     = map (\<lambda>k. slice documents k (k + batch_size)) (range_step i (length documents) batch_size)"
proof (induction api documents i arbitrary: s rule: insert_batches.induct)
  case (1 api documents i)
  show ?case
  proof (cases "i < length documents")
    case True
    then have eq: "range_step i (length documents) batch_size
                     = i # range_step (i + batch_size) (length documents) batch_size"
      by (subst range_step.simps) (simp add: batch_size_def)
    show ?thesis
      using True "1.IH" [OF True refl]
      by (subst insert_batches.simps) (simp add: eq run_simps Let_def split: sum.splits)
  next
    case False
    then have "range_step i (length documents) batch_size = []"
      by (subst range_step.simps) simp
    with False show ?thesis
      by (subst insert_batches.simps) simp
  qed
qed

lemma insert_batches_returns:
  "outcome (insert_batches api documents i s) = Inr ()"
proof (induction api documents i arbitrary: s rule: insert_batches.induct)
  case (1 api documents i)
  show ?case
  proof (cases "i < length documents")
    case True
    show ?thesis
      using True "1.IH" [OF True refl]
      by (subst insert_batches.simps) (simp add: run_simps Let_def split: sum.splits)
  next
    case False
    then show ?thesis
      by (subst insert_batches.simps) simp
  qed
qed

lemma insert_batches_all: "inserted_batches (events (insert_batches api documents 0 s)) = batches documents"
  by (simp add: insert_batches_submits batches_def)

lemma insert_batches_v2_submits:
  "prefix (inserted_batches (events (insert_batches_v2 api documents i s)))
     (map (\<lambda>k. slice documents k (k + batch_size)) (range_step i (length documents) batch_size))"
proof (induction api documents i arbitrary: s rule: insert_batches_v2.induct)
  case (1 api documents i)
  show ?case
  proof (cases "i < length documents")
    case True
    then have eq: "range_step i (length documents) batch_size
                     = i # range_step (i + batch_size) (length documents) batch_size"
      by (subst range_step.simps) (simp add: batch_size_def)
    show ?thesis
      using True "1.IH" [OF True refl]
      by (subst insert_batches_v2.simps) (simp add: eq run_simps Let_def split: sum.splits)
  next
    case False
    then show ?thesis
      by (subst insert_batches_v2.simps) simp
  qed
qed

lemma insert_batches_v2_stops:
  assumes "i < length documents"
    and "fst (insert_many api (slice documents i (i + batch_size)) s) = Inl e"
  shows "outcome (insert_batches_v2 api documents i s) = Inl e"
    and "inserted_batches (events (insert_batches_v2 api documents i s))
           = [slice documents i (i + batch_size)]"
  using assms by (subst insert_batches_v2.simps, simp add: run_simps Let_def)+

lemma sizes_of_45:
  assumes "length xs = 45"
  shows "map length (batches xs) = [20, 20, 5]"
proof -
  have l: "length (batches xs) = 3" using assms by (simp add: length_batches)
  then obtain a b c where abc: "batches xs = [a, b, c]"
    by (auto simp: numeral_3_eq_3 length_Suc_conv)
  have "batches xs ! 0 = take 20 (drop (20 * 0) xs)"
    "batches xs ! 1 = take 20 (drop (20 * 1) xs)"
    "batches xs ! 2 = take 20 (drop (20 * 2) xs)"
    using l by (simp_all only: nth_batches)
  with abc have "a = take 20 xs" "b = take 20 (drop 20 xs)" "c = take 20 (drop 40 xs)"
    by simp_all
  with abc assms show ?thesis by simp
qed

lemma batch_sizes:
  assumes "k < length (batches xs)"
  shows "length (batches xs ! k) = (if Suc k < length (batches xs) then 20 else length xs - 20 * k)"
    and "batches xs ! k \<noteq> []"
proof -
  from assms have k: "k < (length xs + 19) div 20" by (simp add: length_batches)
  then have lt: "20 * k < length xs" by simp
  have len: "length (batches xs ! k) = min 20 (length xs - 20 * k)"
    using assms by (simp add: nth_batches min.commute)
  show "length (batches xs ! k) = (if Suc k < length (batches xs) then 20 else length xs - 20 * k)"
    using len by (auto simp: length_batches)
  from len lt have "length (batches xs ! k) > 0" by simp
  then show "batches xs ! k \<noteq> []" by auto
qed

subsection \<open>Replacing the extension\<close>

lemma not_prefix_pdf_inside:
  assumes "\<not> prefix ''.pdf'' s" and "s \<noteq> []"
  shows "\<not> prefix ''.pdf'' (s @ ''.pdf'' @ r)"
proof
  assume "prefix ''.pdf'' (s @ ''.pdf'' @ r)"
  with assms obtain us where us: "''.pdf'' = s @ us" "prefix us (''.pdf'' @ r)"
    using prefix_append [of "''.pdf''" s "''.pdf'' @ r"] by blast
  show False
  proof (cases us)
    case Nil
    with us assms show False by simp
  next
    case (Cons u us')
    with us(2) have "u = CHR ''.''" by simp
    with us(1) Cons assms(2) show False
      by (auto simp: Cons_eq_append_conv)
  qed
qed

lemma str_replace_pdf_inside:
  "str_replace ''.pdf'' '''' (s @ ''.pdf'' @ r)
     = str_replace ''.pdf'' '''' s @ str_replace ''.pdf'' '''' r"
proof (induction s rule: length_induct)
  case (1 s)
  show ?case
  proof (cases s)
    case Nil
    then show ?thesis by simp
  next
    case (Cons c cs)
    show ?thesis
    proof (cases "prefix ''.pdf'' s")
      case True
      then obtain t where t: "s = ''.pdf'' @ t" by (auto simp: prefix_def)
      then have "length t < length s" by simp
      with 1 have "str_replace ''.pdf'' '''' (t @ ''.pdf'' @ r)
                     = str_replace ''.pdf'' '''' t @ str_replace ''.pdf'' '''' r" by blast
      with t show ?thesis by simp
    next
      case False
      have np: "\<not> prefix ''.pdf'' (s @ ''.pdf'' @ r)"
        using False Cons by (intro not_prefix_pdf_inside) simp_all
      have "length cs < length s" using Cons by simp
      with 1 have ih: "str_replace ''.pdf'' '''' (cs @ ''.pdf'' @ r)
                         = str_replace ''.pdf'' '''' cs @ str_replace ''.pdf'' '''' r" by blast
      have "str_replace ''.pdf'' '''' (c # (cs @ ''.pdf'' @ r))
              = c # str_replace ''.pdf'' '''' (cs @ ''.pdf'' @ r)"
        using np unfolding Cons append_Cons
        by (subst str_replace.simps(2)) (simp only: if_False simp_thms)
      moreover have "str_replace ''.pdf'' '''' (c # cs) = c # str_replace ''.pdf'' '''' cs"
        using False unfolding Cons by (subst str_replace.simps(2)) (simp only: if_False simp_thms)
      ultimately show ?thesis using ih unfolding Cons append_Cons by (simp only: append_Cons)
    qed
  qed
qed

section \<open>Record identifiers\<close>

text \<open>
  Claim C4. The record id is a function of the source file name and the sequence index,
  and for a fixed file name it is injective in the index, in both ingestion scripts:
  two indices give the same id exactly when they are equal. The ids of the documents
  prepared from a list of chunks are the ids of the indices \<open>0, 1, \<dots>\<close> in order, and
  they are pairwise distinct.
\<close>

theorem record_id_deterministic_injective:
  "(record_id pdf_filename i = record_id pdf_filename j \<longleftrightarrow> i = j)
   \<and> (record_id_v2 pdf_filename i = record_id_v2 pdf_filename j \<longleftrightarrow> i = j)
   \<and> map doc_id (prepare_documents chunks pdf_filename)
         = map (record_id pdf_filename) [0..<length chunks]
   \<and> distinct (map doc_id (prepare_documents chunks pdf_filename))"
  using record_id_inject [of pdf_filename i j] record_id_v2_inject [of pdf_filename i j]
    doc_ids_prepare_documents [of chunks pdf_filename] distinct_doc_ids [of chunks pdf_filename]
  by (intro conjI) assumption+

text \<open>
  Claim C10. In the script with delegated vectorization, \<open>replace('.pdf', '')\<close> removes
  an occurrence of \<open>.pdf\<close> wherever it stands in the file name, not only at the end.
  So a file name and the same name followed by \<open>.pdf\<close> get the same record id at every
  index: \<open>report.pdf.pdf\<close> and \<open>report.pdf\<close> are distinct names that both give
  \<open>report_i\<close>.
\<close>

theorem record_id_drops_every_pdf:
  "str_replace ''.pdf'' '''' (s @ ''.pdf'' @ r)
     = str_replace ''.pdf'' '''' s @ str_replace ''.pdf'' '''' r
   \<and> record_id (s @ ''.pdf'') i = record_id s i
   \<and> record_id ''report.pdf.pdf'' i = record_id ''report.pdf'' i
   \<and> ''report.pdf.pdf'' \<noteq> ''report.pdf''
   \<and> record_id ''report.pdf.pdf'' i = ''report_'' @ str_nat i"
proof -
  have "str_replace ''.pdf'' '''' (s @ ''.pdf'') = str_replace ''.pdf'' '''' s"
    using str_replace_pdf_inside [of s "[]"] by simp
  then have "record_id (s @ ''.pdf'') i = record_id s i"
    by (simp add: record_id_def)
  moreover have a: "record_id ''report.pdf.pdf'' i = ''report_'' @ str_nat i"
    by (simp add: record_id_def)
  moreover have b: "record_id ''report.pdf'' i = ''report_'' @ str_nat i"
    by (simp add: record_id_def)
  moreover from a b have "record_id ''report.pdf.pdf'' i = record_id ''report.pdf'' i"
    by (simp only:)
  moreover have "''report.pdf.pdf'' \<noteq> ''report.pdf''"
    by simp
  ultimately show ?thesis
    using str_replace_pdf_inside [of s r] by (intro conjI) assumption+
qed

section \<open>Credentials, connection and search results\<close>

lemma ingest_to_astra_without_credentials:
  assumes "falsy (ASTRA_DB_API_ENDPOINT cfg) \<or> falsy (ASTRA_DB_APPLICATION_TOKEN cfg)"
  shows "outcome (ingest_to_astra cfg api chunks c f s)
           = Inl (ValueError ''Missing Astra DB credentials. Check your .env file.'')"
    and "calls_of (events (ingest_to_astra cfg api chunks c f s)) = []"
    and "after (ingest_to_astra cfg api chunks c f s) = s"
  using assms by (simp_all add: ingest_to_astra_def run_simps)

lemma ingest_to_astra_v2_without_credentials:
  assumes "falsy (ASTRA_DB_API_ENDPOINT cfg) \<or> falsy (ASTRA_DB_APPLICATION_TOKEN cfg)"
  shows "outcome (ingest_to_astra_v2 cfg emb api chunks c f s)
           = Inl (ValueError ''Missing Astra DB credentials. Check your .env file.'')"
    and "calls_of (events (ingest_to_astra_v2 cfg emb api chunks c f s)) = []"
    and "after (ingest_to_astra_v2 cfg emb api chunks c f s) = s"
  using assms by (simp_all add: ingest_to_astra_v2_def run_simps)

lemma query_astra_without_credentials:
  assumes "falsy (ASTRA_DB_API_ENDPOINT cfg) \<or> falsy (ASTRA_DB_APPLICATION_TOKEN cfg)"
  shows "outcome (query_astra cfg api q c l s)
           = Inl (ValueError ''Missing Astra DB credentials. Check your .env file.'')"
    and "calls_of (events (query_astra cfg api q c l s)) = []"
    and "after (query_astra cfg api q c l s) = s"
  using assms by (simp_all add: query_astra_def)

lemma list_collections_first_call:
  "take 1 (calls_of (events (list_collections cfg api s)))
     = [Data_API_Client (ASTRA_DB_APPLICATION_TOKEN cfg)]"
  by (simp add: list_collections_def run_simps)

lemma ingest_to_astra_connected:
  assumes "\<not> falsy (ASTRA_DB_API_ENDPOINT cfg)" "\<not> falsy (ASTRA_DB_APPLICATION_TOKEN cfg)"
    and "connection_ok api"
  shows "outcome (ingest_to_astra cfg api chunks c f s) = Inr ()"
    and "inserted_batches (events (ingest_to_astra cfg api chunks c f s))
           = batches (prepare_documents chunks f)"
  using assms
  by (simp_all add: ingest_to_astra_def run_simps connection_ok_def
        insert_batches_all insert_batches_returns)

lemma show_results_empty:
  "show_results (enumerate 1 []) 0 s = (Inr 0, s, [])"
  by (simp add: ret_def)

lemma query_astra_found_nothing:
  assumes "\<not> falsy (ASTRA_DB_API_ENDPOINT cfg)" "\<not> falsy (ASTRA_DB_APPLICATION_TOKEN cfg)"
    and "connection_ok api"
    and "\<forall>s'. fst (find_sorted api q l s') = Inr []"
  shows "outcome (query_astra cfg api q c l s) = Inr ()"
    and "Print (nl @ ''[!] No results found. The collection might be empty or the query didn''
               @ [CHR 0x27] @ ''t match any documents.'') \<in> set (events (query_astra cfg api q c l s))"
  using assms
  by (simp_all add: query_astra_def run_simps connection_ok_def)

lemma query_astra_search_fails:
  assumes "\<not> falsy (ASTRA_DB_API_ENDPOINT cfg)" "\<not> falsy (ASTRA_DB_APPLICATION_TOKEN cfg)"
    and "connection_ok api"
    and "\<forall>s'. fst (find_sorted api q l s') = Inl e"
  shows "outcome (query_astra cfg api q c l s) = Inl e"
  using assms
  by (simp_all add: query_astra_def run_simps connection_ok_def)

lemma list_collections_run:
  "calls_of (events (list_collections no_credentials
      (counting_store [] (Inr ([] :: result_doc list)) :: (nat, unit, result_doc) store) 0))
   = [Data_API_Client None, Get_Database_By_Api_Endpoint None, List_Collection_Names]"
  "outcome (list_collections no_credentials
      (counting_store [] (Inr ([] :: result_doc list)) :: (nat, unit, result_doc) store) 0)
   = Inr ()"
  by (simp_all add: list_collections_def run_simps no_credentials_def counting_store_def)

text \<open>
  Claim C8. With no credentials in the environment, \<open>ingest_to_astra\<close> and
  \<open>query_astra\<close> raise the \<open>ValueError\<close> for missing credentials before any call on the
  store client. \<open>list_collections\<close> has no such check: whatever the store does, its first
  action is to create the client with the missing token, and against a store that answers
  it goes on to fetch the database and the collection names and returns normally.
\<close>

theorem list_collections_checks_no_credentials:
  "take 1 (calls_of (events (list_collections no_credentials api s))) = [Data_API_Client None]
   \<and> calls_of (events (list_collections no_credentials
         (counting_store [] (Inr ([] :: result_doc list)) :: (nat, unit, result_doc) store) 0))
       = [Data_API_Client None, Get_Database_By_Api_Endpoint None, List_Collection_Names]
   \<and> outcome (list_collections no_credentials
         (counting_store [] (Inr ([] :: result_doc list)) :: (nat, unit, result_doc) store) 0)
       = Inr ()
   \<and> outcome (query_astra no_credentials api_q q c l s_q)
       = Inl (ValueError ''Missing Astra DB credentials. Check your .env file.'')
   \<and> calls_of (events (query_astra no_credentials api_q q c l s_q)) = []
   \<and> outcome (ingest_to_astra no_credentials api_i chunks c f s_i)
       = Inl (ValueError ''Missing Astra DB credentials. Check your .env file.'')
   \<and> calls_of (events (ingest_to_astra no_credentials api_i chunks c f s_i)) = []"
proof -
  have f: "falsy (ASTRA_DB_API_ENDPOINT no_credentials)
             \<or> falsy (ASTRA_DB_APPLICATION_TOKEN no_credentials)"
    by (simp add: no_credentials_def falsy_def)
  have "take 1 (calls_of (events (list_collections no_credentials api s))) = [Data_API_Client None]"
    using list_collections_first_call [of no_credentials api s] by (simp add: no_credentials_def)
  then show ?thesis
    using list_collections_run
      query_astra_without_credentials(1,2) [OF f, of api_q q c l s_q]
      ingest_to_astra_without_credentials(1,2) [OF f, of api_i chunks c f s_i]
    by (intro conjI) assumption+
qed

text \<open>
  Claim C9. With credentials present and a store that can be reached, a search that
  returns no record makes \<open>query_astra\<close> return normally after printing that nothing
  was found, while a search that raises makes \<open>query_astra\<close> raise that exception: the
  caller tells the two apart.
\<close>

theorem query_zero_results_is_no_error:
  assumes "\<not> falsy (ASTRA_DB_API_ENDPOINT cfg)" and "\<not> falsy (ASTRA_DB_APPLICATION_TOKEN cfg)"
    and "connection_ok api"
  shows "((\<forall>s'. fst (find_sorted api q l s') = Inr []) \<longrightarrow>
            outcome (query_astra cfg api q c l s) = Inr ()
            \<and> Print (nl @ ''[!] No results found. The collection might be empty or the query didn''
                 @ [CHR 0x27] @ ''t match any documents.'')
                \<in> set (events (query_astra cfg api q c l s)))
         \<and> ((\<forall>s'. fst (find_sorted api q l s') = Inl e) \<longrightarrow>
            outcome (query_astra cfg api q c l s) = Inl e)"
  using query_astra_found_nothing [OF assms, of q l c s]
    query_astra_search_fails [OF assms, of q l e c s]
  by blast

theorem query_zero_results_is_no_error_witness:
  "outcome (query_astra both_credentials
      (counting_store [] (Inr ([] :: result_doc list)) :: (nat, unit, result_doc) store)
      ''What is biological aging?'' ''pdf_documents'' 5 0) = Inr ()
   \<and> Print (nl @ ''[!] No results found. The collection might be empty or the query didn''
         @ [CHR 0x27] @ ''t match any documents.'')
      \<in> set (events (query_astra both_credentials
            (counting_store [] (Inr ([] :: result_doc list)) :: (nat, unit, result_doc) store)
            ''What is biological aging?'' ''pdf_documents'' 5 0))
   \<and> outcome (query_astra both_credentials
      (counting_store [] (Inl (ExternalError ''unauthorized'')) :: (nat, unit, result_doc) store)
      ''What is biological aging?'' ''pdf_documents'' 5 0) = Inl (ExternalError ''unauthorized'')"
proof -
  have c: "\<not> falsy (ASTRA_DB_API_ENDPOINT both_credentials)"
    "\<not> falsy (ASTRA_DB_APPLICATION_TOKEN both_credentials)"
    by (simp_all add: both_credentials_def falsy_def)
  have ok: "connection_ok (counting_store [] found :: (nat, unit, result_doc) store)" for found
    by (simp add: connection_ok_def counting_store_def)
  have a: "\<forall>s'. fst (find_sorted
      (counting_store [] (Inr ([] :: result_doc list)) :: (nat, unit, result_doc) store)
      ''What is biological aging?'' 5 s') = Inr []"
    by (simp add: counting_store_def)
  have b: "\<forall>s'. fst (find_sorted
      (counting_store [] (Inl (ExternalError ''unauthorized'')) :: (nat, unit, result_doc) store)
      ''What is biological aging?'' 5 s') = Inl (ExternalError ''unauthorized'')"
    by (simp add: counting_store_def)
  show ?thesis
    using a b c ok
      query_zero_results_is_no_error
        [where cfg = both_credentials
           and api = "counting_store [] (Inr ([] :: result_doc list)) :: (nat, unit, result_doc) store"
           and q = "''What is biological aging?''" and l = 5 and c = "''pdf_documents''"
           and s = 0 and e = "ExternalError ''unauthorized''"]
      query_zero_results_is_no_error
        [where cfg = both_credentials
           and api = "counting_store [] (Inl (ExternalError ''unauthorized''))
                        :: (nat, unit, result_doc) store"
           and q = "''What is biological aging?''" and l = 5 and c = "''pdf_documents''"
           and s = 0 and e = "ExternalError ''unauthorized''"]
    by blast
qed

section \<open>Failure of one batch\<close>

lemma v2_run_submits_two_batches:
  "map length (inserted_batches (events (ingest_to_astra_v2 both_credentials null_embeddings
      (counting_store [2] (Inr ([] :: result_doc list)))
      (replicate 45 ''chunk'') ''pdf_documents'' ''report.pdf'' 0)))
   = [20, 20]"
  by code_simp

lemma v2_run_raises:
  "outcome (ingest_to_astra_v2 both_credentials null_embeddings
      (counting_store [2] (Inr ([] :: result_doc list)))
      (replicate 45 ''chunk'') ''pdf_documents'' ''report.pdf'' 0)
   = Inl (ExternalError ''quota exceeded'')"
  by code_simp

lemma simple_run_submits_three_batches:
  "map length (inserted_batches (events (ingest_to_astra both_credentials
      (counting_store [2] (Inr ([] :: result_doc list)))
      (replicate 45 ''chunk'') ''pdf_documents'' ''report.pdf'' 0)))
   = [20, 20, 5]"
  by code_simp

text \<open>
  Claim C1. A run of the script with local embeddings on 45 chunks, against a store whose
  second \<open>insert_many\<close> raises: the exception leaves \<open>ingest_to_astra\<close>, and only the
  first two batches were submitted; the third never is. The script with delegated
  vectorization, on the same chunks and store, submits all three batches.
\<close>

theorem v2_failed_batch_stops_ingestion:
  "map length (inserted_batches (events (ingest_to_astra_v2 both_credentials null_embeddings
      (counting_store [2] (Inr ([] :: result_doc list)))
      (replicate 45 ''chunk'') ''pdf_documents'' ''report.pdf'' 0)))
   = [20, 20]
   \<and> outcome (ingest_to_astra_v2 both_credentials null_embeddings
      (counting_store [2] (Inr ([] :: result_doc list)))
      (replicate 45 ''chunk'') ''pdf_documents'' ''report.pdf'' 0)
   = Inl (ExternalError ''quota exceeded'')
   \<and> map length (inserted_batches (events (ingest_to_astra both_credentials
      (counting_store [2] (Inr ([] :: result_doc list)))
      (replicate 45 ''chunk'') ''pdf_documents'' ''report.pdf'' 0)))
   = [20, 20, 5]"
  using v2_run_submits_two_batches v2_run_raises simple_run_submits_three_batches
  by (intro conjI) assumption+

section \<open>Runs of the ingestion script\<close>

lemma extract_pages_no_calls:
  "calls_of (events (extract_pages n pages t s)) = []"
  by (induction n pages t arbitrary: s rule: extract_pages.induct)
     (simp_all add: run_simps split: sum.splits)

lemma extract_pages_after:
  "after (extract_pages n pages t s) = s"
  by (induction n pages t arbitrary: s rule: extract_pages.induct)
     (simp_all add: run_simps split: sum.splits)

lemma extract_text_from_pdf_local:
  "calls_of (events (extract_text_from_pdf reader path s)) = []"
  "after (extract_text_from_pdf reader path s) = s"
  by (simp_all add: extract_text_from_pdf_def run_simps extract_pages_no_calls extract_pages_after
        split: sum.splits)

lemma chunk_text_run:
  assumes "overlap < csize"
  shows "outcome (chunk_text t csize overlap s) = Inr (split_text_rec csize overlap separators t)"
    and "after (chunk_text t csize overlap s) = s"
    and "calls_of (events (chunk_text t csize overlap s)) = []"
    and "inserted_batches (events (chunk_text t csize overlap s)) = []"
  using assms by (simp_all add: chunk_text_def split_text_def run_simps)

lemma submitted_ids_batches:
  "map doc_id (concat (batches (prepare_documents chunks f))) = map (record_id f) [0..<length chunks]"
  by (simp only: concat_batches doc_ids_prepare_documents)

lemma chunk_and_ingest_ids:
  assumes "\<not> falsy (ASTRA_DB_API_ENDPOINT cfg)" "\<not> falsy (ASTRA_DB_APPLICATION_TOKEN cfg)"
    and "connection_ok api" and "overlap < csize"
  shows "submitted_ids (events (chunk_and_ingest cfg api t csize overlap c f s))
           = map (record_id f) [0..<length (split_text_rec csize overlap separators t)]"
proof -
  have "inserted_batches (events (chunk_and_ingest cfg api t csize overlap c f s))
          = batches (prepare_documents (split_text_rec csize overlap separators t) f)"
    using assms(4)
    by (simp add: chunk_and_ingest_def run_simps chunk_text_run
          ingest_to_astra_connected [OF assms(1,2,3)])
  then show ?thesis
    by (simp only: submitted_ids_def submitted_ids_batches)
qed

lemma ingest_to_astra_ids:
  assumes "\<not> falsy (ASTRA_DB_API_ENDPOINT cfg)" "\<not> falsy (ASTRA_DB_APPLICATION_TOKEN cfg)"
    and "connection_ok api"
  shows "submitted_ids (events (ingest_to_astra cfg api chunks c f s))
           = map (record_id f) [0..<length chunks]"
  by (simp only: submitted_ids_def ingest_to_astra_connected(2) [OF assms] submitted_ids_batches)

lemma main_no_text:
  assumes "path_exists fs (pdf_path a)"
    and "outcome (extract_text_from_pdf (pdf_reader fs) (pdf_path a) s
                    :: (error + string) \<times> 's \<times> simple_doc event list) = Inr extracted"
    and "strip extracted = []"
  shows "outcome (main cfg fs api a s) = Inr ()"
    and "after (main cfg fs api a s) = s"
    and "calls_of (events (main cfg fs api a s)) = []"
    and "drop 10 (events (main cfg fs api a s))
           = events (extract_text_from_pdf (pdf_reader fs) (pdf_path a) s)
             @ [Print ''[-] Error: No text extracted from PDF. The PDF might be image-based.'']"
  using assms
  by (simp_all add: main_def run_simps extract_text_from_pdf_local)

lemma blank_scan_extracted:
  "outcome (extract_text_from_pdf (\<lambda>p. Inr [Inr '''', Inr '' '']) ''scan.pdf'' (0::nat)
      :: (error + string) \<times> nat \<times> simple_doc event list)
     = Inr (nl @ nl @ '' '' @ nl @ nl)"
  by (simp add: extract_text_from_pdf_def run_simps)

lemma blank_scan_is_blank: "strip (nl @ nl @ '' '' @ nl @ nl) = []"
  by (simp add: strip_def nl_def is_space_def)

text \<open>
  Claim C5. Two runs of steps 2 and 3 of the script on the same text, sizes and file
  name, with credentials present and against any two stores that can be reached (in any
  state, with any answers to \<open>insert_many\<close>), submit the same record ids in the same order:
  the ids of the indices \<open>0, 1, \<dots>\<close> below the number of chunks, each once. The same
  holds for two calls of \<open>ingest_to_astra\<close> on the same chunks and file name.
\<close>

theorem reingestion_targets_same_ids:
  assumes "\<not> falsy (ASTRA_DB_API_ENDPOINT cfg)" and "\<not> falsy (ASTRA_DB_APPLICATION_TOKEN cfg)"
    and "connection_ok api" and "connection_ok api'" and "overlap < csize"
  shows "set (submitted_ids (events (chunk_and_ingest cfg api t csize overlap c f s)))
           = set (submitted_ids (events (chunk_and_ingest cfg api' t csize overlap c f s')))
         \<and> submitted_ids (events (chunk_and_ingest cfg api t csize overlap c f s))
           = submitted_ids (events (chunk_and_ingest cfg api' t csize overlap c f s'))
         \<and> distinct (submitted_ids (events (chunk_and_ingest cfg api t csize overlap c f s)))
         \<and> submitted_ids (events (ingest_to_astra cfg api chunks c f s))
           = submitted_ids (events (ingest_to_astra cfg api' chunks c f s'))
         \<and> submitted_ids (events (ingest_to_astra cfg api chunks c f s))
           = map (record_id f) [0..<length chunks]"
proof -
  have "distinct (map (record_id f) [0..<n])" for n
    by (simp add: distinct_map inj_on_def record_id_inject)
  then show ?thesis
    by (simp only: chunk_and_ingest_ids [OF assms(1,2,3,5)] chunk_and_ingest_ids [OF assms(1,2,4,5)]
          ingest_to_astra_ids [OF assms(1,2,3)] ingest_to_astra_ids [OF assms(1,2,4)] simp_thms)
qed

theorem reingestion_targets_same_ids_witness:
  "\<not> falsy (ASTRA_DB_API_ENDPOINT both_credentials)
   \<and> \<not> falsy (ASTRA_DB_APPLICATION_TOKEN both_credentials)
   \<and> connection_ok (counting_store [] (Inr ([] :: result_doc list)) :: (nat, simple_doc, result_doc) store)
   \<and> connection_ok (counting_store [1] (Inr ([] :: result_doc list)) :: (nat, simple_doc, result_doc) store)
   \<and> (2::nat) < 5
   \<and> submitted_ids (events (chunk_and_ingest both_credentials
          (counting_store [] (Inr ([] :: result_doc list))) ''AAAA BBBB CCCC'' 5 2
          ''pdf_documents'' ''report.pdf'' 0))
       = submitted_ids (events (chunk_and_ingest both_credentials
          (counting_store [1] (Inr ([] :: result_doc list))) ''AAAA BBBB CCCC'' 5 2
          ''pdf_documents'' ''report.pdf'' 7))"
proof -
  have c: "\<not> falsy (ASTRA_DB_API_ENDPOINT both_credentials)"
    "\<not> falsy (ASTRA_DB_APPLICATION_TOKEN both_credentials)"
    by (simp_all add: both_credentials_def falsy_def)
  have ok: "connection_ok (counting_store failing (Inr ([] :: result_doc list))
              :: (nat, simple_doc, result_doc) store)" for failing
    by (simp add: connection_ok_def counting_store_def)
  have lt: "(2::nat) < 5" by simp
  show ?thesis
    using c ok [of "[]"] ok [of "[1]"] lt
      reingestion_targets_same_ids [OF c ok [of "[]"] ok [of "[1]"] lt,
        where t = "''AAAA BBBB CCCC''" and c = "''pdf_documents''" and f = "''report.pdf''"
          and s = 0 and s' = 7 and chunks = "[]"]
    by (intro conjI) blast+
qed

text \<open>
  Claim C7. When the file exists and the text extracted from it is empty or only
  whitespace, \<open>main\<close> prints its banner, extracts, prints that no text was extracted
  and returns: it makes no call on the store client (so no batch, empty or not, is
  submitted), leaves the remote state as it was, and after the ten lines of the banner
  its output is that of the extraction followed by the error line only, so the
  chunker never runs. The script reports the error by this message; it raises nothing.
\<close>

theorem no_text_stops_before_the_store:
  assumes "path_exists fs (pdf_path a)"
    and "outcome (extract_text_from_pdf (pdf_reader fs) (pdf_path a) s
                    :: (error + string) \<times> 's \<times> simple_doc event list) = Inr extracted"
    and "strip extracted = []"
  shows "outcome (main cfg fs api a s) = Inr ()
         \<and> after (main cfg fs api a s) = s
         \<and> calls_of (events (main cfg fs api a s)) = []
         \<and> drop 10 (events (main cfg fs api a s))
             = events (extract_text_from_pdf (pdf_reader fs) (pdf_path a) s)
               @ [Print ''[-] Error: No text extracted from PDF. The PDF might be image-based.'']"
  using main_no_text [OF assms, of cfg api] by (intro conjI) assumption+

theorem no_text_stops_before_the_store_witness:
  "path_exists \<lparr>path_exists = (\<lambda>p. True), pdf_reader = (\<lambda>p. Inr [Inr '''', Inr '' ''])\<rparr> ''scan.pdf''
   \<and> strip (nl @ nl @ '' '' @ nl @ nl) = []
   \<and> outcome (main both_credentials
         \<lparr>path_exists = (\<lambda>p. True), pdf_reader = (\<lambda>p. Inr [Inr '''', Inr '' ''])\<rparr>
         (counting_store [] (Inr ([] :: result_doc list)))
         \<lparr>pdf_path = ''scan.pdf'', collection = ''pdf_documents'', chunk_size = 1000,
          chunk_overlap = 200\<rparr> (0::nat)) = Inr ()
   \<and> calls_of (events (main both_credentials
         \<lparr>path_exists = (\<lambda>p. True), pdf_reader = (\<lambda>p. Inr [Inr '''', Inr '' ''])\<rparr>
         (counting_store [] (Inr ([] :: result_doc list)))
         \<lparr>pdf_path = ''scan.pdf'', collection = ''pdf_documents'', chunk_size = 1000,
          chunk_overlap = 200\<rparr> (0::nat))) = []"
proof -
  have p: "path_exists \<lparr>path_exists = (\<lambda>p. True), pdf_reader = (\<lambda>p. Inr [Inr '''', Inr '' ''])\<rparr>
             (pdf_path \<lparr>pdf_path = ''scan.pdf'', collection = ''pdf_documents'',
                         chunk_size = 1000, chunk_overlap = 200\<rparr>)"
    by simp
  have e: "outcome (extract_text_from_pdf
             (pdf_reader \<lparr>path_exists = (\<lambda>p. True), pdf_reader = (\<lambda>p. Inr [Inr '''', Inr '' ''])\<rparr>)
             (pdf_path \<lparr>pdf_path = ''scan.pdf'', collection = ''pdf_documents'',
                         chunk_size = 1000, chunk_overlap = 200\<rparr>) (0::nat)
             :: (error + string) \<times> nat \<times> simple_doc event list)
           = Inr (nl @ nl @ '' '' @ nl @ nl)"
    using blank_scan_extracted by simp
  show ?thesis
    using blank_scan_is_blank
      no_text_stops_before_the_store [OF p e blank_scan_is_blank,
        of both_credentials "counting_store [] (Inr ([] :: result_doc list))"]
    by simp
qed

section \<open>Chunks\<close>






lemma split_at_nonempty: "p \<in> set (split_at sep s) \<Longrightarrow> p \<noteq> []"
  by (simp add: split_at_def)








section \<open>Batching\<close>

lemma insert_batches_v2_complete:
  "outcome (insert_batches_v2 api documents i s) = Inr () \<Longrightarrow>
   inserted_batches (events (insert_batches_v2 api documents i s))
     = map (\<lambda>k. slice documents k (k + batch_size)) (range_step i (length documents) batch_size)"
proof (induction api documents i arbitrary: s rule: insert_batches_v2.induct)
  case (1 api documents i)
  show ?case
  proof (cases "i < length documents")
    case True
    then have eq: "range_step i (length documents) batch_size
                     = i # range_step (i + batch_size) (length documents) batch_size"
      by (subst range_step.simps) (simp add: batch_size_def)
    let ?batch = "slice documents i (i + batch_size)"
    from "1.prems" True
    have ok: "fst (insert_many api ?batch s) = Inr ()"
      and rest: "outcome (insert_batches_v2 api documents (i + batch_size)
                   (snd (insert_many api ?batch s))) = Inr ()"
      by (subst (asm) insert_batches_v2.simps, simp add: run_simps Let_def split: sum.splits)+
    have "inserted_batches (events (insert_batches_v2 api documents (i + batch_size)
             (snd (insert_many api ?batch s))))
          = map (\<lambda>k. slice documents k (k + batch_size))
              (range_step (i + batch_size) (length documents) batch_size)"
      using "1.IH" [OF True refl rest] .
    with True ok show ?thesis
      by (subst insert_batches_v2.simps) (simp add: eq run_simps Let_def)
  next
    case False
    then have "range_step i (length documents) batch_size = []"
      by (subst range_step.simps) simp
    with False show ?thesis
      by (subst insert_batches_v2.simps) simp
  qed
qed

lemma insert_batches_v2_returns:
  "\<forall>b s'. fst (insert_many api b s') = Inr () \<Longrightarrow>
   outcome (insert_batches_v2 api documents i s) = Inr ()"
proof (induction api documents i arbitrary: s rule: insert_batches_v2.induct)
  case (1 api documents i)
  show ?case
  proof (cases "i < length documents")
    case True
    show ?thesis
      using True "1.IH" [OF True refl "1.prems"] "1.prems"
      by (subst insert_batches_v2.simps) (simp add: run_simps Let_def)
  next
    case False
    then show ?thesis
      by (subst insert_batches_v2.simps) simp
  qed
qed

lemma v2_run_falls_short:
  "length (inserted_batches (events (ingest_to_astra_v2 both_credentials null_embeddings
      (counting_store [2] (Inr ([] :: result_doc list)))
      (replicate 45 ''chunk'') ''pdf_documents'' ''report.pdf'' 0))) = 2"
  "length (concat (inserted_batches (events (ingest_to_astra_v2 both_credentials null_embeddings
      (counting_store [2] (Inr ([] :: result_doc list)))
      (replicate 45 ''chunk'') ''pdf_documents'' ''report.pdf'' 0)))) = 40"
proof -
  let ?bs = "inserted_batches (events (ingest_to_astra_v2 both_credentials null_embeddings
      (counting_store [2] (Inr ([] :: result_doc list)))
      (replicate 45 ''chunk'') ''pdf_documents'' ''report.pdf'' 0))"
  have m: "map length ?bs = [20, 20]" by (rule v2_run_submits_two_batches)
  have "length (map length ?bs) = 2" by (simp only: m) simp
  then show "length ?bs = 2" by simp
  have "length (concat ?bs) = sum_list (map length ?bs)" by (rule length_concat)
  then show "length (concat ?bs) = 40" by (simp only: m) simp
qed

lemma sample_run_v2:
  "outcome (insert_batches_v2 (counting_store [] (Inr ([] :: result_doc list)))
      (sample_vector_docs 21) 0 0) = Inr ()"
  "map length (inserted_batches (events (insert_batches_v2
      (counting_store [] (Inr ([] :: result_doc list))) (sample_vector_docs 21) 0 0))) = [20, 1]"
  by code_simp+

text \<open>
  Claim C6. A list of \<open>n\<close> records is cut, in order, into \<open>ceil(n / 20)\<close> batches:
  every batch but the last has exactly 20 records, the last has the rest and is not
  empty, and the batches concatenated give the list back; 45 records give the sizes
  20, 20, 5. The number of batches is the total the scripts print. The loop of the
  script with delegated vectorization submits exactly these batches in this order,
  whatever the store answers. The loop of the script with local embeddings submits
  them in this order, and all of them when it returns normally, which it does when no
  \<open>insert_many\<close> raises; when one raises it stops there: on 45 chunks with the second
  \<open>insert_many\<close> raising, 2 batches with 40 of the 45 records are submitted, not 3.
\<close>

theorem ingestor_batches_partition:
  "length (batches xs) = (length xs + 19) div 20
   \<and> concat (batches xs) = xs
   \<and> (\<forall>k < length (batches xs).
        length (batches xs ! k) = (if Suc k < length (batches xs) then 20 else length xs - 20 * k)
        \<and> batches xs ! k \<noteq> [])
   \<and> (length xs = 45 \<longrightarrow> map length (batches xs) = [20, 20, 5])
   \<and> total_batches xs = int (length (batches xs))
   \<and> inserted_batches (events (insert_batches api documents 0 s)) = batches documents
   \<and> prefix (inserted_batches (events (insert_batches_v2 api_b documents_b 0 s_b)))
        (batches documents_b)
   \<and> (outcome (insert_batches_v2 api_b documents_b 0 s_b) = Inr () \<longrightarrow>
        inserted_batches (events (insert_batches_v2 api_b documents_b 0 s_b))
          = batches documents_b)
   \<and> ((\<forall>b s'. fst (insert_many api_b b s') = Inr ()) \<longrightarrow>
        outcome (insert_batches_v2 api_b documents_b 0 s_b) = Inr ())
   \<and> length (inserted_batches (events (ingest_to_astra_v2 both_credentials null_embeddings
        (counting_store [2] (Inr ([] :: result_doc list)))
        (replicate 45 ''chunk'') ''pdf_documents'' ''report.pdf'' 0))) = 2
   \<and> length (concat (inserted_batches (events (ingest_to_astra_v2 both_credentials null_embeddings
        (counting_store [2] (Inr ([] :: result_doc list)))
        (replicate 45 ''chunk'') ''pdf_documents'' ''report.pdf'' 0)))) = 40"
proof -
  have "prefix (inserted_batches (events (insert_batches_v2 api_b documents_b 0 s_b)))
          (batches documents_b)"
    using insert_batches_v2_submits [of api_b documents_b 0 s_b] by (simp add: batches_def)
  moreover have "\<forall>k < length (batches xs).
        length (batches xs ! k) = (if Suc k < length (batches xs) then 20 else length xs - 20 * k)
        \<and> batches xs ! k \<noteq> []"
    using batch_sizes [of _ xs] by blast
  moreover have "length xs = 45 \<longrightarrow> map length (batches xs) = [20, 20, 5]"
    using sizes_of_45 [of xs] by blast
  moreover have "outcome (insert_batches_v2 api_b documents_b 0 s_b) = Inr () \<longrightarrow>
        inserted_batches (events (insert_batches_v2 api_b documents_b 0 s_b))
          = batches documents_b"
    using insert_batches_v2_complete [of api_b documents_b 0 s_b] by (simp add: batches_def)
  moreover have "(\<forall>b s'. fst (insert_many api_b b s') = Inr ()) \<longrightarrow>
        outcome (insert_batches_v2 api_b documents_b 0 s_b) = Inr ()"
    using insert_batches_v2_returns [of api_b documents_b 0 s_b] by blast
  ultimately show ?thesis
    using length_batches [of xs] concat_batches [of xs] total_batches_eq [of xs]
      insert_batches_all [of api documents s] v2_run_falls_short
    by (intro conjI) assumption+
qed

theorem ingestor_batches_partition_witness:
  "length (replicate 45 (0::nat)) = 45
   \<and> map length (batches (replicate 45 (0::nat))) = [20, 20, 5]
   \<and> 2 < length (batches (replicate 45 (0::nat)))
   \<and> length (batches (replicate 45 (0::nat)) ! 2) = 5
   \<and> concat (batches (replicate 45 (0::nat))) = replicate 45 0
   \<and> (\<forall>b s'. fst (insert_many
          (counting_store [] (Inr ([] :: result_doc list)) :: (nat, nat vector_doc, result_doc) store)
          b s') = Inr ())
   \<and> outcome (insert_batches_v2 (counting_store [] (Inr ([] :: result_doc list)))
        (sample_vector_docs 21) 0 0) = Inr ()
   \<and> inserted_batches (events (insert_batches_v2 (counting_store [] (Inr ([] :: result_doc list)))
        (sample_vector_docs 21) 0 0)) = batches (sample_vector_docs 21)
   \<and> map length (batches (sample_vector_docs 21)) = [20, 1]"
proof -
  note t = ingestor_batches_partition
    [where xs = "replicate 45 (0::nat)"
       and api = "counting_store [] (Inr ([] :: result_doc list))"
       and documents = "[]" and s = 0
       and api_b = "counting_store [] (Inr ([] :: result_doc list))"
       and documents_b = "sample_vector_docs 21" and s_b = 0]
  from t have l: "length (batches (replicate 45 (0::nat))) = 3" by simp
  from t have "\<forall>k < length (batches (replicate 45 (0::nat))).
      length (batches (replicate 45 (0::nat)) ! k)
        = (if Suc k < length (batches (replicate 45 (0::nat))) then 20
           else length (replicate 45 (0::nat)) - 20 * k)"
    by blast
  with l have five: "length (batches (replicate 45 (0::nat)) ! 2) = 5" by simp
  have never: "\<forall>b s'. fst (insert_many
          (counting_store [] (Inr ([] :: result_doc list)) :: (nat, nat vector_doc, result_doc) store)
          b s') = Inr ()"
    by (simp add: counting_store_def)
  with t have ret: "outcome (insert_batches_v2 (counting_store [] (Inr ([] :: result_doc list)))
        (sample_vector_docs 21) 0 0) = Inr ()"
    by blast
  with t have all: "inserted_batches (events (insert_batches_v2
        (counting_store [] (Inr ([] :: result_doc list))) (sample_vector_docs 21) 0 0))
      = batches (sample_vector_docs 21)"
    by blast
  have sizes: "map length (batches (sample_vector_docs 21)) = [20, 1]"
    using sample_run_v2(2) by (simp only: all)
  have a: "length (replicate 45 (0::nat)) = 45" by simp
  from t a have b: "map length (batches (replicate 45 (0::nat))) = [20, 20, 5]" by blast
  from l have c: "2 < length (batches (replicate 45 (0::nat)))" by simp
  from t have d: "concat (batches (replicate 45 (0::nat))) = replicate 45 0" by blast
  from a b c five d never ret all sizes show ?thesis
    by (intro conjI) assumption+
qed

end
